theory Spec2Isabelle
  imports Complex_Main "HOL-Library.AList" "HOL-Library.Char_ord" "HOL-Library.List_Lexorder"
begin

section \<open>Decision Verifier: thresholds and classification\<close>

text \<open>
  The verifier of \<^verbatim>\<open>verify_calculations.py\<close>. Python floats are modelled as exact
  reals: the claims about the thresholds are claims about the formulas, not about rounding.
  Every exception the source can raise is a value of \<open>py_error\<close>.
\<close>

datatype py_error = ZeroDivisionError | ValueError

text \<open>\<^verbatim>\<open>params.get(key, default)\<close> on a dictionary of numbers.\<close>

definition dict_get :: "(string \<rightharpoonup> real) \<Rightarrow> string \<Rightarrow> real \<Rightarrow> real" where
  "dict_get d k dflt = (case d k of None \<Rightarrow> dflt | Some v \<Rightarrow> v)"

text \<open>The dictionary \<^verbatim>\<open>{'Ptt': Ptt, 'Pt': Pt}\<close> that \<^verbatim>\<open>calculate_thresholds\<close> returns.\<close>

record thresholds =
  Ptt :: real
  Pt :: real

text \<open>
  \<^verbatim>\<open>calculate_thresholds(params, is_reversed)\<close>. A float division by zero raises
  \<^verbatim>\<open>ZeroDivisionError\<close>; the standard branch divides twice, first by \<open>1 - RRrx\<close>
  and then by \<open>RRt\<close>.
\<close>

definition calculate_thresholds :: "(string \<rightharpoonup> real) \<Rightarrow> bool \<Rightarrow> py_error + thresholds" where
  "calculate_thresholds params is_reversed =
     (let RV = dict_get params ''RV'' 1;
          RRbleed = dict_get params ''RRbleed'' 2.17;
          H = dict_get params ''H'' 0.005;
          RRrx = dict_get params ''RRrx'' 0.15;
          Tp = dict_get params ''Tp'' 0.38;
          RRt = dict_get params ''RRt'' 1.65
      in if is_reversed then
           (if RRrx - 1 = 0 then Inl ZeroDivisionError
            else let pt = RV * H / (RRrx - 1);
                     ptt = pt * (RRt * Tp + (1 - Tp))
                 in Inr \<lparr>Ptt = ptt, Pt = pt\<rparr>)
         else
           (if 1 - RRrx = 0 then Inl ZeroDivisionError
            else let pt = RV * (RRbleed - 1) * H / (1 - RRrx)
                 in if RRt = 0 then Inl ZeroDivisionError
                    else let ptt = ((RRt * Tp + (1 - Tp)) / RRt) * pt
                         in Inr \<lparr>Ptt = ptt, Pt = pt\<rparr>))"

text \<open>\<^verbatim>\<open>determine_decision(pVTE, thresholds, is_reversed)\<close>: the result is a string.\<close>

definition determine_decision :: "real \<Rightarrow> thresholds \<Rightarrow> bool \<Rightarrow> string" where
  "determine_decision pVTE th is_reversed =
     (if is_reversed then
        (if pVTE < Pt th then ''Rx''
         else if pVTE > Ptt th then ''NoRx''
         else ''Test'')
      else
        (if pVTE < Ptt th then ''NoRx''
         else if pVTE > Pt th then ''Rx''
         else ''Test''))"

text \<open>The parameter dictionary with all six keys present.\<close>

definition full_params :: "real \<Rightarrow> real \<Rightarrow> real \<Rightarrow> real \<Rightarrow> real \<Rightarrow> real \<Rightarrow> (string \<rightharpoonup> real)" where
  "full_params rv rrbleed h rrrx tp rrt =
     [''RV'' \<mapsto> rv, ''RRbleed'' \<mapsto> rrbleed, ''H'' \<mapsto> h, ''RRrx'' \<mapsto> rrrx, ''Tp'' \<mapsto> tp, ''RRt'' \<mapsto> rrt]"

section \<open>Recommendation Catalog Builder\<close>

text \<open>
  The builder of \<^verbatim>\<open>generate_complete_data.py\<close>. A record of the catalog is a Python
  dictionary with a fixed set of keys; the keys \<^verbatim>\<open>bleedingRisk\<close> and \<^verbatim>\<open>isReversed\<close>
  are present in one family each, so they are optional here. The keys \<^verbatim>\<open>id\<close> and
  \<^verbatim>\<open>group\<close> are the fields \<open>rec_id\<close> and \<open>rec_group\<close>. \<^verbatim>\<open>RRbleed\<close> is the
  integer \<open>1\<close> in the hormonal family and a float elsewhere, which the serializer tells
  apart.
\<close>

datatype py_num = PyInt int | PyFloat real

record recommendation =
  rec_id :: string
  pVTE :: real
  Tp :: real
  RRt :: real
  RRrx :: real
  H_low :: real
  H_high :: real
  RRbleed :: py_num
  decimals :: int
  description :: string
  ashDecision :: string
  category :: string
  rec_group :: string
  bleedingRisk :: "string option"
  isReversed :: "bool option"

text \<open>
  Whitespace as \<^verbatim>\<open>str.strip()\<close> and the regular expression class \<^verbatim>\<open>\s\<close> see it, on
  characters below 256.
\<close>

definition is_space :: "char \<Rightarrow> bool" where
  "is_space c = (c \<in> set [CHR 0x09, CHR 0x0A, CHR 0x0B, CHR 0x0C, CHR 0x0D, CHR 0x1C, CHR 0x1D,
                           CHR 0x1E, CHR 0x1F, CHR 0x20, CHR 0x85, CHR 0xA0])"

definition strip :: "string \<Rightarrow> string" where
  "strip s = rev (dropWhile is_space (rev (dropWhile is_space s)))"

definition startswith :: "string \<Rightarrow> string \<Rightarrow> bool" where
  "startswith s p = (take (length p) s = p)"

text \<open>\<^verbatim>\<open>str.upper()\<close> on ASCII text.\<close>

definition upper_char :: "char \<Rightarrow> char" where
  "upper_char c =
     (case map_of (zip ''abcdefghijklmnopqrstuvwxyz'' ''ABCDEFGHIJKLMNOPQRSTUVWXYZ'') c of
        None \<Rightarrow> c
      | Some u \<Rightarrow> u)"

definition upper :: "string \<Rightarrow> string" where
  "upper s = map upper_char s"

text \<open>
  The loop over the Agreement sheet that fills \<^verbatim>\<open>ash_decisions\<close>. A row is the pair of
  its cells in columns 1 and 2; a cell is \<open>None\<close> when \<^verbatim>\<open>pd.notna\<close> is false and
  otherwise the text \<^verbatim>\<open>str(cell)\<close>.
\<close>

definition ash_decisions_step :: "string option \<times> string option \<Rightarrow> (string \<rightharpoonup> string) \<Rightarrow> (string \<rightharpoonup> string)" where
  "ash_decisions_step row d =
     (let case_id = (case fst row of None \<Rightarrow> [] | Some c \<Rightarrow> strip c);
          ash = (case snd row of None \<Rightarrow> [] | Some a \<Rightarrow> strip a)
      in if startswith case_id ''R'' \<and> ash \<in> set [''NoRx'', ''Test'', ''Rx'']
         then d(case_id \<mapsto> ash) else d)"

definition load_ash_decisions :: "(string option \<times> string option) list \<Rightarrow> (string \<rightharpoonup> string)" where
  "load_ash_decisions agreement_rows = fold ash_decisions_step agreement_rows Map.empty"

text \<open>\<^verbatim>\<open>ash_decisions.get(rec_id, 'Unknown')\<close>.\<close>

definition ash_get :: "(string \<rightharpoonup> string) \<Rightarrow> string \<Rightarrow> string" where
  "ash_get ash_decisions k = (case ash_decisions k of None \<Rightarrow> ''Unknown'' | Some v \<Rightarrow> v)"

subsection \<open>The four literal tables\<close>

text \<open>
  \<^verbatim>\<open>r1_10_base\<close> is a dictionary of dictionaries, iterated in insertion order: a row is
  the base id with the values of \<^verbatim>\<open>pVTE\<close>, \<^verbatim>\<open>Tp\<close>, \<^verbatim>\<open>RRt\<close>, \<^verbatim>\<open>RRrx\<close>,
  \<^verbatim>\<open>RRbleed\<close>, \<^verbatim>\<open>description\<close> and \<^verbatim>\<open>category\<close>. The other three tables are lists
  of tuples in the source.
\<close>

definition r1_10_base :: "(string \<times> real \<times> real \<times> real \<times> real \<times> real \<times> string \<times> string) list" where
  "r1_10_base =
     [(''R1'', 0.10, 0.38, 1.65, 0.15, 2.17,
       ''Unprovoked VTE - completed short-term treatment'',
       ''Symptomatic VTE''),
      (''R2'', 0.01, 0.38, 1.65, 0.15, 2.17,
       ''VTE provoked by surgery'',
       ''Symptomatic VTE''),
      (''R3'', 0.05, 0.38, 1.65, 0.15, 2.17,
       ''VTE provoked by nonsurgical major transient risk factor'',
       ''Symptomatic VTE''),
      (''R4'', 0.05, 0.38, 1.65, 0.15, 2.17,
       ''VTE provoked by pregnancy or postpartum'',
       ''Symptomatic VTE''),
      (''R5'', 0.05, 0.38, 1.65, 0.15, 2.17,
       ''VTE associated with combined oral contraceptive use'',
       ''Symptomatic VTE''),
      (''R6'', 0.075, 0.38, 1.65, 0.15, 2.17,
       ''Unspecified type of VTE'',
       ''Symptomatic VTE''),
      (''R7'', 0.038, 0.436, 1.65, 0.15, 2.17,
       ''Cerebral venous thrombosis - discontinue setting'',
       ''VTE in Unusual Sites''),
      (''R8'', 0.038, 0.436, 1.65, 0.15, 2.17,
       ''Cerebral venous thrombosis - continue indefinitely'',
       ''VTE in Unusual Sites''),
      (''R9'', 0.05, 0.416, 1.65, 0.15, 2.17,
       ''Splanchnic venous thrombosis - discontinue setting'',
       ''VTE in Unusual Sites''),
      (''R10'', 0.05, 0.416, 1.65, 0.15, 2.17,
       ''Splanchnic venous thrombosis - continue indefinitely'',
       ''VTE in Unusual Sites'')]"

definition r11_14_data :: "(string \<times> real \<times> real \<times> real \<times> real \<times> real \<times> real \<times> string) list" where
  "r11_14_data =
     [(''R11a'', 0.015, 0.5, 2.71, 0.54, 0.004, 2.09,
       ''First-degree relative with FVL, minor provoking risk factor''),
      (''R11b'', 0.015, 0.5, 2.35, 0.54, 0.004, 2.09,
       ''First-degree relative with PGM, minor provoking risk factor''),
      (''R11c'', 0.05, 0.5, 12.17, 0.54, 0.004, 2.09,
       ''First-degree relative with Protein C deficiency, minor risk factor''),
      (''R11d'', 0.05, 0.5, 7.47, 0.54, 0.004, 2.09,
       ''First-degree relative with Protein S deficiency, minor risk factor''),
      (''R11e'', 0.05, 0.5, 5.98, 0.54, 0.004, 2.09,
       ''First-degree relative with Antithrombin deficiency, minor risk factor''),
      (''R12a'', 0.015, 0.512, 2.82, 0.54, 0.004, 2.09,
       ''Panel testing - FVL known in family''),
      (''R12b'', 0.015, 0.524, 2.55, 0.54, 0.004, 2.09,
       ''Panel testing - PGM known in family''),
      (''R12c'', 0.05, 0.533, 11.76, 0.54, 0.004, 2.09,
       ''Panel testing - Protein C deficiency known in family''),
      (''R12d'', 0.05, 0.533, 7.36, 0.54, 0.004, 2.09,
       ''Panel testing - Protein S deficiency known in family''),
      (''R12e'', 0.05, 0.534, 5.98, 0.54, 0.004, 2.09,
       ''Panel testing - Antithrombin deficiency known in family''),
      (''R13'', 0.012, 0.142, 3.89, 0.54, 0.004, 2.09,
       ''Family history of VTE, unknown thrombophilia status, minor risk factor''),
      (''R14a'', 0.0075, 0.5, 2.71, 0.54, 0.004, 2.09,
       ''Family history of FVL (no VTE), minor risk factor''),
      (''R14b'', 0.0075, 0.5, 2.54, 0.54, 0.004, 2.09,
       ''Family history of PGM (no VTE), minor risk factor''),
      (''R14c'', 0.025, 0.5, 12.17, 0.54, 0.004, 2.09,
       ''First-degree relative with Protein C (no VTE), minor risk factor''),
      (''R14d'', 0.025, 0.5, 7.47, 0.54, 0.004, 2.09,
       ''First-degree relative with Protein S (no VTE), minor risk factor''),
      (''R14e'', 0.025, 0.5, 5.98, 0.54, 0.004, 2.09,
       ''First-degree relative with Antithrombin (no VTE), minor risk factor'')]"

definition r15_20_data :: "(string \<times> real \<times> real \<times> real \<times> real \<times> real \<times> string) list" where
  "r15_20_data =
     [(''R15'', 0.00035, 0.0685, 5.89, 3.5, 0.0595,
       ''General population women considering COC''),
      (''R16a'', 0.002, 0.0685, 1.8, 2.22, 0.1077,
       ''General population women considering HRT - estrogen alone''),
      (''R16b'', 0.002, 0.0685, 1.8, 4.28, 0.1559,
       ''General population women considering HRT - combined''),
      (''R17'', 0.0012, 0.142, 3.87, 3.5, 0.0595,
       ''Women with family history of VTE considering COC''),
      (''R18a'', 0.003, 0.142, 2.08, 2.22, 0.1077,
       ''Women with family history of VTE considering HRT - estrogen''),
      (''R18b'', 0.003, 0.142, 2.08, 4.28, 0.1559,
       ''Women with family history of VTE considering HRT - combined''),
      (''R19a'', 0.0025, 0.5, 2.71, 3.5, 0.0595,
       ''Women with known FVL in family considering COC''),
      (''R19b'', 0.0025, 0.5, 2.35, 3.5, 0.0595,
       ''Women with known PGM in family considering COC''),
      (''R19c'', 0.0084, 0.5, 12.07, 3.5, 0.0595,
       ''Women with known Protein C deficiency considering COC''),
      (''R19d'', 0.0063, 0.5, 7.24, 3.5, 0.0595,
       ''Women with known Protein S deficiency considering COC''),
      (''R19e'', 0.0049, 0.5, 5.98, 3.5, 0.0595,
       ''Women with known Antithrombin deficiency considering COC''),
      (''R20a'', 0.0025, 0.5, 2.6, 2.22, 0.1077,
       ''Women with known FVL considering HRT - estrogen''),
      (''R20b'', 0.0025, 0.5, 2.6, 4.28, 0.1559,
       ''Women with known FVL considering HRT - combined''),
      (''R20c'', 0.0025, 0.5, 0.8, 2.22, 0.1077,
       ''Women with known PGM considering HRT - estrogen''),
      (''R20d'', 0.0025, 0.5, 0.8, 4.28, 0.1559,
       ''Women with known PGM considering HRT - combined''),
      (''R20e'', 0.0084, 0.5, 1.7, 2.22, 0.1077,
       ''Women with Protein C deficiency considering HRT - estrogen''),
      (''R20f'', 0.0084, 0.5, 1.7, 4.28, 0.1559,
       ''Women with Protein C deficiency considering HRT - combined''),
      (''R20g'', 0.0063, 0.5, 1.8, 2.22, 0.1077,
       ''Women with Protein S deficiency considering HRT - estrogen''),
      (''R20h'', 0.0063, 0.5, 1.8, 4.28, 0.1559,
       ''Women with Protein S deficiency considering HRT - combined''),
      (''R20i'', 0.0049, 0.5, 1.9, 2.22, 0.1077,
       ''Women with Antithrombin deficiency considering HRT - estrogen''),
      (''R20j'', 0.0049, 0.5, 1.9, 4.28, 0.1559,
       ''Women with Antithrombin deficiency considering HRT - combined'')]"

definition r21_23_data :: "(string \<times> real \<times> real \<times> real \<times> real \<times> real \<times> real \<times> string) list" where
  "r21_23_data =
     [(''R21a'', 0.0375, 0.25, 20.96, 0.41, 0.00634, 3.21,
       ''Pregnant with homozygous FVL - antepartum prophylaxis''),
      (''R21b'', 0.018, 0.5, 10.51, 0.41, 0.00634, 3.21,
       ''Pregnant with compound heterozygous FVL/PGM - antepartum''),
      (''R21c'', 0.004, 0.5, 6.04, 0.41, 0.00634, 3.21,
       ''Pregnant with heterozygous FVL - antepartum prophylaxis''),
      (''R21d'', 0.008, 0.5, 5.03, 0.41, 0.00634, 3.21,
       ''Pregnant with heterozygous PGM - antepartum prophylaxis''),
      (''R21e'', 0.02025, 0.25, 9.36, 0.41, 0.00634, 3.21,
       ''Pregnant with Protein C/S/AT deficiency - antepartum''),
      (''R22a'', 0.0375, 0.25, 20.96, 0.41, 0.00846, 3.38,
       ''Postpartum with homozygous FVL - postpartum prophylaxis''),
      (''R22b'', 0.018, 0.5, 10.51, 0.41, 0.00846, 3.38,
       ''Postpartum with compound heterozygous FVL/PGM''),
      (''R22c'', 0.004, 0.5, 6.04, 0.41, 0.00846, 3.38,
       ''Postpartum with heterozygous FVL''),
      (''R22d'', 0.008, 0.5, 5.03, 0.41, 0.00846, 3.38,
       ''Postpartum with heterozygous PGM''),
      (''R22e'', 0.02025, 0.25, 9.36, 0.41, 0.00846, 3.38,
       ''Postpartum with Protein C/S/AT deficiency''),
      (''R23a'', 0.05, 0.142, 3.28, 0.61, 0.0036, 1.65,
       ''Pregnant with family history VTE, unknown thrombophilia - antepartum''),
      (''R23b'', 0.066, 0.142, 3.28, 0.61, 0.008, 1.65,
       ''Postpartum with family history VTE, unknown thrombophilia'')]"

subsection \<open>The loops that build the records\<close>

definition mk_r1_10 :: "(string \<rightharpoonup> string) \<Rightarrow> string \<times> real \<times> real \<times> real \<times> real \<times> real \<times> string \<times> string \<Rightarrow> string \<Rightarrow> recommendation" where
  "mk_r1_10 ash_decisions row risk_level =
     (case row of (base_id, pvte, tp, rrt, rrrx, rrbleed, desc, cat) \<Rightarrow>
        let rid = base_id @ '' '' @ risk_level;
            H = (if risk_level = ''low'' then 0.005 else 0.015)
        in \<lparr>rec_id = rid, pVTE = pvte, Tp = tp, RRt = rrt, RRrx = rrrx, H_low = H, H_high = H,
            RRbleed = PyFloat rrbleed,
            decimals = (if pvte < 0.1 then 2 else 1),
            description = desc @ '' ('' @ upper risk_level @ '' bleeding risk)'',
            ashDecision = ash_get ash_decisions rid,
            category = cat, rec_group = ''R1-R10'',
            bleedingRisk = Some risk_level, isReversed = None\<rparr>)"

definition mk_r11_14 :: "(string \<rightharpoonup> string) \<Rightarrow> string \<times> real \<times> real \<times> real \<times> real \<times> real \<times> real \<times> string \<Rightarrow> recommendation" where
  "mk_r11_14 ash_decisions row =
     (case row of (rid, pvte, tp, rrt, rrrx, h, rrbleed, desc) \<Rightarrow>
        \<lparr>rec_id = rid, pVTE = pvte, Tp = tp, RRt = rrt, RRrx = rrrx, H_low = h, H_high = h,
         RRbleed = PyFloat rrbleed,
         decimals = (if pvte < 0.01 then 3 else 2),
         description = desc,
         ashDecision = ash_get ash_decisions rid,
         category = ''Asymptomatic with Family History'', rec_group = ''R11-R14'',
         bleedingRisk = None, isReversed = None\<rparr>)"

definition mk_r15_20 :: "(string \<rightharpoonup> string) \<Rightarrow> string \<times> real \<times> real \<times> real \<times> real \<times> real \<times> string \<Rightarrow> recommendation" where
  "mk_r15_20 ash_decisions row =
     (case row of (rid, pvte, tp, rrt, rrrx, h, desc) \<Rightarrow>
        \<lparr>rec_id = rid, pVTE = pvte, Tp = tp, RRt = rrt, RRrx = rrrx, H_low = h, H_high = h,
         RRbleed = PyInt 1,
         decimals = 4,
         description = desc,
         ashDecision = ash_get ash_decisions rid,
         category = ''Women Considering COC/HRT'', rec_group = ''R15-R20'',
         bleedingRisk = None, isReversed = Some True\<rparr>)"

definition mk_r21_23 :: "(string \<rightharpoonup> string) \<Rightarrow> string \<times> real \<times> real \<times> real \<times> real \<times> real \<times> real \<times> string \<Rightarrow> recommendation" where
  "mk_r21_23 ash_decisions row =
     (case row of (rid, pvte, tp, rrt, rrrx, h, rrbleed, desc) \<Rightarrow>
        \<lparr>rec_id = rid, pVTE = pvte, Tp = tp, RRt = rrt, RRrx = rrrx, H_low = h, H_high = h,
         RRbleed = PyFloat rrbleed,
         decimals = (if pvte < 0.01 then 4 else 3),
         description = desc,
         ashDecision = ash_get ash_decisions rid,
         category = ''Women Planning Pregnancy'', rec_group = ''R21-R23'',
         bleedingRisk = None, isReversed = None\<rparr>)"

text \<open>
  The list \<^verbatim>\<open>recommendations\<close> after the four loops: the nested loop of the first family
  appends a low and a high record for each base row, the other loops one record for each
  row.
\<close>

definition recommendations :: "(string \<rightharpoonup> string) \<Rightarrow> recommendation list" where
  "recommendations ash_decisions =
     concat (map (\<lambda>row. map (mk_r1_10 ash_decisions row) [''low'', ''high'']) r1_10_base)
     @ map (mk_r11_14 ash_decisions) r11_14_data
     @ map (mk_r15_20 ash_decisions) r15_20_data
     @ map (mk_r21_23 ash_decisions) r21_23_data"

text \<open>
  The tiering of \<open>decimals\<close> in the words of the specification, one rule for each of the
  four families; \<open>None\<close> for any other group name. It is compared with what the four loops
  compute.
\<close>

definition decimals_rule :: "string \<Rightarrow> real \<Rightarrow> int option" where
  "decimals_rule g p =
     (if g = ''R1-R10'' then Some (if p < 0.1 then 2 else 1)
      else if g = ''R11-R14'' then Some (if p < 0.01 then 3 else 2)
      else if g = ''R21-R23'' then Some (if p < 0.01 then 4 else 3)
      else if g = ''R15-R20'' then Some 4
      else None)"

section \<open>Decision Verifier: loading the reference and comparing\<close>

text \<open>
  The values of the two dictionaries that \<^verbatim>\<open>compare_recommendations\<close> reads. Both are
  built by the loaders with all their keys, so they are records; \<^verbatim>\<open>js_data\<close> is iterated
  in insertion order, so it is an association list, and \<^verbatim>\<open>excel_data\<close> is only looked
  up, so it is a map.
\<close>

record js_rec =
  ash_decision :: string
  pvte :: real

record excel_rec =
  ash_decision :: string
  eut_decision :: string
  agrees_eut :: "string option"
  pvte :: "real option"




text \<open>One entry of the list \<^verbatim>\<open>results\<close>.\<close>

record comparison =
  js_id :: string
  excel_id :: string
  js_ash :: string
  excel_ash :: string
  js_pvte :: real
  excel_pvte :: "real option"
  ash_matches :: bool

text \<open>
  The ids tried for one catalog id, in the order of the three \<^verbatim>\<open>if\<close> statements: the id
  itself, then the id with \<^verbatim>\<open>' low'\<close> and with \<^verbatim>\<open>' high'\<close> appended.
\<close>

definition excel_matches :: "(string \<rightharpoonup> excel_rec) \<Rightarrow> string \<Rightarrow> string list" where
  "excel_matches excel_data jid =
     (if jid \<in> dom excel_data then [jid] else [])
     @ (if jid @ '' low'' \<in> dom excel_data then [jid @ '' low''] else [])
     @ (if jid @ '' high'' \<in> dom excel_data then [jid @ '' high''] else [])"

text \<open>
  The body of the inner loop. \<^verbatim>\<open>excel_data.get(excel_id, {})\<close> is the stored record or
  the empty dictionary, on which the three \<^verbatim>\<open>get\<close> calls give their defaults.
\<close>

definition compare_one :: "(string \<rightharpoonup> excel_rec) \<Rightarrow> string \<Rightarrow> js_rec \<Rightarrow> string \<Rightarrow> comparison" where
  "compare_one excel_data jid js_r xid =
     (let excel_r = excel_data xid;
          ash_match = (js_rec.ash_decision js_r =
                         (case excel_r of None \<Rightarrow> [] | Some x \<Rightarrow> excel_rec.ash_decision x))
      in \<lparr>js_id = jid, excel_id = xid,
          js_ash = js_rec.ash_decision js_r,
          excel_ash = (case excel_r of None \<Rightarrow> ''N/A'' | Some x \<Rightarrow> excel_rec.ash_decision x),
          js_pvte = js_rec.pvte js_r,
          excel_pvte = (case excel_r of None \<Rightarrow> None | Some x \<Rightarrow> excel_rec.pvte x),
          ash_matches = ash_match\<rparr>)"

definition compare_recommendations :: "(string \<rightharpoonup> excel_rec) \<Rightarrow> (string \<times> js_rec) list \<Rightarrow> comparison list" where
  "compare_recommendations excel_data js_data =
     concat (map (\<lambda>(jid, js_r). map (compare_one excel_data jid js_r) (excel_matches excel_data jid))
                 js_data)"

section \<open>Serialization of the catalog\<close>

text \<open>
  \<^verbatim>\<open>json.dumps(recommendations, indent=n)\<close> and the text of \<^verbatim>\<open>data.js\<close>. The encoder
  is the standard library's; what it prints for a list of flat dictionaries is written out
  here. Characters are code points below 256.
\<close>

definition nl :: string where
  "nl = [CHR 0x0A]"

definition digit_char :: "nat \<Rightarrow> char" where
  "digit_char n = ''0123456789'' ! n"

definition hex_digit :: "nat \<Rightarrow> char" where
  "hex_digit n = ''0123456789abcdef'' ! n"

text \<open>\<^verbatim>\<open>str(n)\<close> for a natural number and for an integer.\<close>

function nat_str :: "nat \<Rightarrow> string" where
  "nat_str n = (if n < 10 then [digit_char n] else nat_str (n div 10) @ [digit_char (n mod 10)])"
  by pat_completeness auto
termination
  by (relation "measure id") auto

declare nat_str.simps [simp del]

definition int_str :: "int \<Rightarrow> string" where
  "int_str i = (if i < 0 then ''-'' @ nat_str (nat (- i)) else nat_str (nat i))"

text \<open>
  \<^verbatim>\<open>float.__repr__\<close>, for the floats of the tables: for the double nearest to a decimal
  of at most 15 significant digits and of magnitude from \<open>0.0001\<close> up to \<open>10^16\<close>, Python
  prints that decimal in positional notation with at least one digit after the point. The
  digits after the point are produced one by one, at most 17 of them.
\<close>

fun frac_digits :: "nat \<Rightarrow> real \<Rightarrow> string" where
  "frac_digits 0 x = []"
| "frac_digits (Suc n) x =
     (if x = 0 then []
      else let d = nat \<lfloor>x * 10\<rfloor> in digit_char d # frac_digits n (x * 10 - real d))"

definition float_repr :: "real \<Rightarrow> string" where
  "float_repr x =
     (let a = \<bar>x\<bar>;
          ds = frac_digits 17 (a - real_of_int \<lfloor>a\<rfloor>)
      in (if x < 0 then ''-'' else []) @ nat_str (nat \<lfloor>a\<rfloor>) @ ''.''
         @ (if ds = [] then ''0'' else ds))"

text \<open>
  \<^verbatim>\<open>json.encoder.py_encode_basestring_ascii\<close>: a backslash, a double quote and the five
  named control characters get their two-character escapes, the other characters from
  space to tilde stand for themselves, and every other character is written
  \<^verbatim>\<open>\u00XX\<close>.
\<close>

definition json_escape_char :: "char \<Rightarrow> string" where
  "json_escape_char c =
     (if c = CHR 0x5C then [CHR 0x5C, CHR 0x5C]
      else if c = CHR 0x22 then [CHR 0x5C, CHR 0x22]
      else if c = CHR 0x08 then [CHR 0x5C, CHR ''b'']
      else if c = CHR 0x0C then [CHR 0x5C, CHR ''f'']
      else if c = CHR 0x0A then [CHR 0x5C, CHR ''n'']
      else if c = CHR 0x0D then [CHR 0x5C, CHR ''r'']
      else if c = CHR 0x09 then [CHR 0x5C, CHR ''t'']
      else if 32 \<le> (of_char c :: nat) \<and> (of_char c :: nat) \<le> 126 then [c]
      else [CHR 0x5C, CHR ''u'', CHR ''0'', CHR ''0'',
            hex_digit ((of_char c :: nat) div 16), hex_digit ((of_char c :: nat) mod 16)])"

definition json_string :: "string \<Rightarrow> string" where
  "json_string s = [CHR 0x22] @ concat (map json_escape_char s) @ [CHR 0x22]"

text \<open>The values that occur in a record, and their JSON text.\<close>

datatype json = JStr string | JInt int | JFloat real | JBool bool

fun json_value :: "json \<Rightarrow> string" where
  "json_value (JStr s) = json_string s"
| "json_value (JInt i) = int_str i"
| "json_value (JFloat x) = float_repr x"
| "json_value (JBool b) = (if b then ''true'' else ''false'')"

text \<open>The keys of a record with their values, in the insertion order of the dictionary.\<close>

definition json_members :: "recommendation \<Rightarrow> (string \<times> json) list" where
  "json_members r =
     [(''id'', JStr (rec_id r)),
      (''pVTE'', JFloat (pVTE r)),
      (''Tp'', JFloat (Tp r)),
      (''RRt'', JFloat (RRt r)),
      (''RRrx'', JFloat (RRrx r)),
      (''H_low'', JFloat (H_low r)),
      (''H_high'', JFloat (H_high r)),
      (''RRbleed'', (case RRbleed r of PyInt i \<Rightarrow> JInt i | PyFloat x \<Rightarrow> JFloat x)),
      (''decimals'', JInt (decimals r)),
      (''description'', JStr (description r)),
      (''ashDecision'', JStr (ashDecision r)),
      (''category'', JStr (category r)),
      (''group'', JStr (rec_group r))]
     @ (case bleedingRisk r of None \<Rightarrow> [] | Some b \<Rightarrow> [(''bleedingRisk'', JStr b)])
     @ (case isReversed r of None \<Rightarrow> [] | Some b \<Rightarrow> [(''isReversed'', JBool b)])"

text \<open>
  With an indent the encoder starts every item on a new line, indented by its nesting
  level, separates items by a comma and a key from its value by a colon and a space.
\<close>

definition newline_indent :: "nat \<Rightarrow> nat \<Rightarrow> string" where
  "newline_indent indent level = nl @ replicate (indent * level) CHR '' ''"

fun join :: "string \<Rightarrow> string list \<Rightarrow> string" where
  "join sep [] = []"
| "join sep [x] = x"
| "join sep (x # y # ys) = x @ sep @ join sep (y # ys)"

definition json_member :: "string \<times> json \<Rightarrow> string" where
  "json_member kv = json_string (fst kv) @ '': '' @ json_value (snd kv)"

definition json_object :: "nat \<Rightarrow> nat \<Rightarrow> (string \<times> json) list \<Rightarrow> string" where
  "json_object indent level members =
     (if members = [] then ''{}''
      else ''{'' @ newline_indent indent (Suc level)
           @ join ('','' @ newline_indent indent (Suc level)) (map json_member members)
           @ newline_indent indent level @ ''}'')"

definition json_dumps :: "nat \<Rightarrow> recommendation list \<Rightarrow> string" where
  "json_dumps indent recs =
     (if recs = [] then ''[]''
      else ''['' @ newline_indent indent 1
           @ join ('','' @ newline_indent indent 1) (map (\<lambda>r. json_object indent 1 (json_members r)) recs)
           @ newline_indent indent 0 @ '']'')"

text \<open>The text written to \<^verbatim>\<open>../data.js\<close>.\<close>

definition js_header :: string where
  "js_header =
     ''/**'' @ nl
     @ '' * ASH Thrombophilia Guidelines - Complete Recommendation Data (69 Recommendations)'' @ nl
     @ '' *'' @ nl
     @ '' * Generated from Excel reference file.'' @ nl
     @ '' *'' @ nl
     @ '' * Groups:'' @ nl
     @ '' * - R1-R10 (20): Symptomatic VTE with LOW/HIGH bleeding risk variants'' @ nl
     @ '' * - R11-R14 (16): Asymptomatic with Family History'' @ nl
     @ '' * - R15-R20 (21): Women considering COC/HRT (INVERSE model)'' @ nl
     @ '' * - R21-R23 (12): Women Planning Pregnancy'' @ nl
     @ '' *'' @ nl
     @ '' * For R15-R20: RRrx > 1 means treatment INCREASES VTE risk (reversed logic)'' @ nl
     @ '' */'' @ nl
     @ nl
     @ ''const RECOMMENDATIONS = ''"

definition js_footer :: string where
  "js_footer =
     '';'' @ nl
     @ nl
     @ ''// Export for Node.js (if needed)'' @ nl
     @ ''if (typeof module !== '' @ [CHR 0x27] @ ''undefined'' @ [CHR 0x27] @ '' && module.exports) {'' @ nl
     @ ''    module.exports = { RECOMMENDATIONS };'' @ nl
     @ ''}'' @ nl"

definition js_content :: "recommendation list \<Rightarrow> string" where
  "js_content recs = js_header @ json_dumps 4 recs @ js_footer"

section \<open>The end of the builder script\<close>





section \<open>Decision Verifier: loading data.js\<close>

text \<open>
  \<^verbatim>\<open>load_js_data\<close> reads the file with two regular expressions. Each is modelled by a
  matcher written for it; both are compiled with \<^verbatim>\<open>re.DOTALL\<close>, so a dot matches every
  character.

  \<open>find_first pat s\<close> splits \<open>s\<close> at the leftmost occurrence of the literal \<open>pat\<close>.
\<close>

fun find_first :: "string \<Rightarrow> string \<Rightarrow> (string \<times> string) option" where
  "find_first pat [] = (if pat = [] then Some ([], []) else None)"
| "find_first pat (c # cs) =
     (if startswith (c # cs) pat then Some ([], drop (length pat) (c # cs))
      else map_option (\<lambda>(a, b). (c # a, b)) (find_first pat cs))"

text \<open>
  \<^verbatim>\<open>re.search(r'const RECOMMENDATIONS = \[(.*?)\];', content, re.DOTALL)\<close>, group 1. The
  match starts at the leftmost occurrence of the literal prefix that is followed somewhere
  by \<^verbatim>\<open>];\<close>, which is the leftmost occurrence if any is; the lazy group ends at the first
  \<^verbatim>\<open>];\<close> after the prefix.
\<close>

definition search_array :: "string \<Rightarrow> string option" where
  "search_array content =
     (case find_first ''const RECOMMENDATIONS = ['' content of
        None \<Rightarrow> None
      | Some (before, rest) \<Rightarrow>
          (case find_first ''];'' rest of
             None \<Rightarrow> None
           | Some (body, after) \<Rightarrow> Some body))"

text \<open>
  A lazy \<^verbatim>\<open>.*?\<close> followed by the literal \<open>pat\<close> and the rest \<open>k\<close> of the pattern: the
  occurrences of \<open>pat\<close> are tried from left to right, and the first one after which \<open>k\<close>
  matches is taken, as the backtracking matcher does.
\<close>

fun lazy_then :: "string \<Rightarrow> (string \<Rightarrow> 'a option) \<Rightarrow> string \<Rightarrow> 'a option" where
  "lazy_then pat k [] = (if pat = [] then k [] else None)"
| "lazy_then pat k (c # cs) =
     (case (if startswith (c # cs) pat then k (drop (length pat) (c # cs)) else None) of
        Some r \<Rightarrow> Some r
      | None \<Rightarrow> lazy_then pat k cs)"

text \<open>
  \<^verbatim>\<open>\s*"([^"]+)"\<close> at the start of a string: the group and the rest. Both greedy
  repetitions are followed by a character outside their class, so they take all they can.
\<close>

definition quoted :: "string \<Rightarrow> (string \<times> string) option" where
  "quoted s =
     (case dropWhile is_space s of
        [] \<Rightarrow> None
      | c # t \<Rightarrow>
          if c = CHR 0x22 then
            (let g = takeWhile (\<lambda>x. x \<noteq> CHR 0x22) t;
                 r = dropWhile (\<lambda>x. x \<noteq> CHR 0x22) t
             in if g = [] \<or> r = [] then None else Some (g, tl r))
          else None)"

text \<open>\<^verbatim>\<open>\s*([\d.]+)\<close> at the start of a string: the group and the rest.\<close>

definition is_num_char :: "char \<Rightarrow> bool" where
  "is_num_char c = (c \<in> set ''0123456789.'')"

definition number :: "string \<Rightarrow> (string \<times> string) option" where
  "number s =
     (let t = dropWhile is_space s;
          g = takeWhile is_num_char t
      in if g = [] then None else Some (g, dropWhile is_num_char t))"

text \<open>
  \<^verbatim>\<open>rec_pattern\<close>,
  \<^verbatim>\<open>\{\s*id:\s*"([^"]+)".*?ashDecision:\s*"([^"]+)".*?pVTE:\s*([\d.]+)\<close>,
  matched at the start of a string: the three groups and the rest of the string.
\<close>

definition rec_pattern :: "string \<Rightarrow> ((string \<times> string \<times> string) \<times> string) option" where
  "rec_pattern s =
     (case s of
        [] \<Rightarrow> None
      | c # s1 \<Rightarrow>
          if c \<noteq> CHR ''{'' then None
          else let s2 = dropWhile is_space s1
               in if \<not> startswith s2 ''id:'' then None
                  else (case quoted (drop 3 s2) of
                          None \<Rightarrow> None
                        | Some (g1, s3) \<Rightarrow>
                            lazy_then ''ashDecision:''
                              (\<lambda>s4. case quoted s4 of
                                       None \<Rightarrow> None
                                     | Some (g2, s5) \<Rightarrow>
                                         lazy_then ''pVTE:''
                                           (\<lambda>s6. case number s6 of
                                                    None \<Rightarrow> None
                                                  | Some (g3, s7) \<Rightarrow> Some ((g1, g2, g3), s7))
                                           s5)
                              s3))"

text \<open>
  \<^verbatim>\<open>rec_pattern.finditer(array_content)\<close>: the matches from left to right, without
  overlap. After a match the scan goes on where the match ended; \<open>skip\<close> counts the
  characters still inside the last match.
\<close>

fun finditer :: "nat \<Rightarrow> string \<Rightarrow> (string \<times> string \<times> string) list" where
  "finditer skip [] = []"
| "finditer (Suc k) (c # cs) = finditer k cs"
| "finditer 0 (c # cs) =
     (case rec_pattern (c # cs) of
        None \<Rightarrow> finditer 0 cs
      | Some (g, rest) \<Rightarrow> g # finditer (length cs - length rest) cs)"

text \<open>
  \<^verbatim>\<open>float(text)\<close> on a text of digits and dots, which is all the third group can hold:
  a \<^verbatim>\<open>ValueError\<close> unless there is a digit and at most one dot.
\<close>

definition digits_val :: "string \<Rightarrow> nat" where
  "digits_val s = foldl (\<lambda>a c. 10 * a + (of_char c - 48)) 0 s"

definition py_float :: "string \<Rightarrow> py_error + real" where
  "py_float s =
     (let ip = takeWhile (\<lambda>c. c \<noteq> CHR ''.'') s;
          fp = drop (Suc (length ip)) s
      in if (ip = [] \<and> fp = []) \<or> CHR ''.'' \<in> set fp then Inl ValueError
         else Inr (real (digits_val ip) + real (digits_val fp) / 10 ^ length fp))"

text \<open>
  The loop that fills \<^verbatim>\<open>js_data\<close>: a later match with the same id replaces the value
  and keeps the place of the key, as an assignment to a dictionary does.
\<close>

fun store_matches :: "(string \<times> string \<times> string) list \<Rightarrow> (string \<times> js_rec) list \<Rightarrow> py_error + (string \<times> js_rec) list" where
  "store_matches [] js_data = Inr js_data"
| "store_matches ((rid, ash, num) # ms) js_data =
     (case py_float num of
        Inl e \<Rightarrow> Inl e
      | Inr v \<Rightarrow>
          store_matches ms
            (AList.update rid \<lparr>js_rec.ash_decision = ash, pvte = v\<rparr> js_data))"

definition load_js_data :: "string \<Rightarrow> py_error + (string \<times> js_rec) list" where
  "load_js_data content =
     (case search_array content of
        None \<Rightarrow> Inl ValueError
      | Some array_content \<Rightarrow> store_matches (finditer 0 array_content) [])"

section \<open>Auxiliary notions for the round trip\<close>

text \<open>
  A text is plain when it has no opening brace and no closing bracket, the two characters
  the loader's patterns key on; a record is plain when its strings are.
\<close>

definition plain :: "string \<Rightarrow> bool" where
  "plain s = (CHR ''{'' \<notin> set s \<and> CHR '']'' \<notin> set s)"

definition plain_rec :: "recommendation \<Rightarrow> bool" where
  "plain_rec r =
     (plain (rec_id r) \<and> plain (description r) \<and> plain (ashDecision r) \<and> plain (category r)
      \<and> plain (rec_group r) \<and> (case bleedingRisk r of None \<Rightarrow> True | Some b \<Rightarrow> plain b))"

text \<open>The text between the brackets of the serialized list.\<close>

definition array_body :: "nat \<Rightarrow> recommendation list \<Rightarrow> string" where
  "array_body indent recs =
     newline_indent indent 1
     @ join ('','' @ newline_indent indent 1) (map (\<lambda>r. json_object indent 1 (json_members r)) recs)
     @ newline_indent indent 0"

section \<open>Properties of the thresholds\<close>

lemma dict_get_full_params:
  "dict_get (full_params rv rrbleed h rrrx tp rrt) ''RV'' d = rv"
  "dict_get (full_params rv rrbleed h rrrx tp rrt) ''RRbleed'' d = rrbleed"
  "dict_get (full_params rv rrbleed h rrrx tp rrt) ''H'' d = h"
  "dict_get (full_params rv rrbleed h rrrx tp rrt) ''RRrx'' d = rrrx"
  "dict_get (full_params rv rrbleed h rrrx tp rrt) ''Tp'' d = tp"
  "dict_get (full_params rv rrbleed h rrrx tp rrt) ''RRt'' d = rrt"
  by (simp_all add: dict_get_def full_params_def)

lemma reversed_thresholds:
  assumes "rrrx \<noteq> 1"
  shows "calculate_thresholds (full_params rv rrbleed h rrrx tp rrt) True =
           Inr \<lparr>Ptt = rv * h / (rrrx - 1) * (rrt * tp + (1 - tp)), Pt = rv * h / (rrrx - 1)\<rparr>"
  using assms by (simp add: calculate_thresholds_def dict_get_full_params Let_def)

lemma standard_thresholds:
  assumes "rrrx \<noteq> 1" and "rrt \<noteq> 0"
  shows "calculate_thresholds (full_params rv rrbleed h rrrx tp rrt) False =
           Inr \<lparr>Ptt = ((rrt * tp + (1 - tp)) / rrt) * (rv * (rrbleed - 1) * h / (1 - rrrx)),
                Pt = rv * (rrbleed - 1) * h / (1 - rrrx)\<rparr>"
  using assms by (simp add: calculate_thresholds_def dict_get_full_params Let_def)








text \<open>
  Claim C10. \<open>determine_decision\<close> is a total function of its three inputs (so it is
  deterministic), and in each mode the set of its results over all reals \<open>pVTE\<close> and all
  pairs of thresholds, degenerate ones included, is exactly \<open>{NoRx, Test, Rx}\<close>.
\<close>

theorem determine_decision_range:
  "range (\<lambda>(pVTE, th). determine_decision pVTE th is_reversed) = {''NoRx'', ''Test'', ''Rx''}"
proof
  have "determine_decision p th is_reversed = ''NoRx'' \<or>
        determine_decision p th is_reversed = ''Test'' \<or>
        determine_decision p th is_reversed = ''Rx''" for p th
    by (simp add: determine_decision_def)
  then show "range (\<lambda>(pVTE, th). determine_decision pVTE th is_reversed)
               \<subseteq> {''NoRx'', ''Test'', ''Rx''}"
    by (force simp: image_iff)
next
  let ?t = "\<lparr>Ptt = 1, Pt = 1\<rparr>"
  have "determine_decision 0 ?t False = ''NoRx''" "determine_decision 1 ?t False = ''Test''"
       "determine_decision 2 ?t False = ''Rx''" "determine_decision 0 ?t True = ''Rx''"
       "determine_decision 1 ?t True = ''Test''" "determine_decision 2 ?t True = ''NoRx''"
    by (simp_all add: determine_decision_def)
  then have "\<exists>p th. ''NoRx'' = determine_decision p th is_reversed"
    and "\<exists>p th. ''Test'' = determine_decision p th is_reversed"
    and "\<exists>p th. ''Rx'' = determine_decision p th is_reversed"
    by (cases is_reversed; metis (full_types))+
  then show "{''NoRx'', ''Test'', ''Rx''}
               \<subseteq> range (\<lambda>(pVTE, th). determine_decision pVTE th is_reversed)"
    by (auto simp: image_iff)
qed

section \<open>The models on small inputs\<close>

text \<open>
  The two worked scenarios of the specification: record R1 low in the standard model and
  record R15 in the reversed model are both classified Rx.
\<close>

lemma scenario_R1_low:
  "(case calculate_thresholds (full_params 1 2.17 0.005 0.15 0.38 1.65) False of
      Inl e \<Rightarrow> False
    | Inr th \<Rightarrow> determine_decision 0.10 th False = ''Rx'')"
  by (simp add: standard_thresholds determine_decision_def)

lemma scenario_R15:
  "(case calculate_thresholds (full_params 1 1 0.0595 3.5 0.0685 5.89) True of
      Inl e \<Rightarrow> False
    | Inr th \<Rightarrow> determine_decision 0.00035 th True = ''Rx'')"
  by (simp add: reversed_thresholds determine_decision_def)

text \<open>The serializer on floats of the tables and on a small object.\<close>

lemma float_repr_examples:
  "float_repr 0.1 = ''0.1''"
  "float_repr 0.00035 = ''0.00035''"
  "float_repr 12.17 = ''12.17''"
  by code_simp+

lemma json_object_example:
  "json_object 4 1 [(''id'', JStr ''R15''), (''pVTE'', JFloat 0.00035), (''RRbleed'', JInt 1),
                    (''isReversed'', JBool True)] =
     ''{'' @ nl
     @ ''        '' @ [CHR 0x22] @ ''id'' @ [CHR 0x22] @ '': '' @ [CHR 0x22] @ ''R15'' @ [CHR 0x22] @ '','' @ nl
     @ ''        '' @ [CHR 0x22] @ ''pVTE'' @ [CHR 0x22] @ '': 0.00035,'' @ nl
     @ ''        '' @ [CHR 0x22] @ ''RRbleed'' @ [CHR 0x22] @ '': 1,'' @ nl
     @ ''        '' @ [CHR 0x22] @ ''isReversed'' @ [CHR 0x22] @ '': true'' @ nl
     @ ''    }''"
  by code_simp

text \<open>
  The loader on a file in the layout its patterns are written for, with unquoted keys and
  \<^verbatim>\<open>ashDecision\<close> before \<^verbatim>\<open>pVTE\<close>: the record is read.
\<close>

lemma load_js_data_unquoted_keys:
  "load_js_data
     (''const RECOMMENDATIONS = [{ id: '' @ [CHR 0x22] @ ''R1'' @ [CHR 0x22]
      @ '', ashDecision: '' @ [CHR 0x22] @ ''Rx'' @ [CHR 0x22] @ '', pVTE: 0.5 }];'')
   = Inr [(''R1'', \<lparr>js_rec.ash_decision = ''Rx'', pvte = 0.5\<rparr>)]"
  by code_simp

section \<open>Properties of the catalog\<close>

lemmas table_defs = r1_10_base_def r11_14_data_def r15_20_data_def r21_23_data_def
lemmas mk_defs = mk_r1_10_def mk_r11_14_def mk_r15_20_def mk_r21_23_def

lemma catalog_ids:
  "map rec_id (recommendations ash) =
     [''R1 low'', ''R1 high'', ''R2 low'', ''R2 high'', ''R3 low'', ''R3 high'',
  ''R4 low'', ''R4 high'', ''R5 low'', ''R5 high'', ''R6 low'', ''R6 high'',
  ''R7 low'', ''R7 high'', ''R8 low'', ''R8 high'', ''R9 low'', ''R9 high'',
  ''R10 low'', ''R10 high'', ''R11a'', ''R11b'', ''R11c'', ''R11d'',
  ''R11e'', ''R12a'', ''R12b'', ''R12c'', ''R12d'', ''R12e'', ''R13'',
  ''R14a'', ''R14b'', ''R14c'', ''R14d'', ''R14e'', ''R15'', ''R16a'',
  ''R16b'', ''R17'', ''R18a'', ''R18b'', ''R19a'', ''R19b'', ''R19c'',
  ''R19d'', ''R19e'', ''R20a'', ''R20b'', ''R20c'', ''R20d'', ''R20e'',
  ''R20f'', ''R20g'', ''R20h'', ''R20i'', ''R20j'', ''R21a'', ''R21b'',
  ''R21c'', ''R21d'', ''R21e'', ''R22a'', ''R22b'', ''R22c'', ''R22d'',
  ''R22e'', ''R23a'', ''R23b'']"
  by (simp add: recommendations_def table_defs mk_defs Let_def)

lemma catalog_groups:
  "map rec_group (recommendations ash) =
     replicate 20 ''R1-R10'' @ replicate 16 ''R11-R14'' @ replicate 21 ''R15-R20''
     @ replicate 12 ''R21-R23''"
  by (simp add: recommendations_def table_defs mk_defs Let_def numeral_eq_Suc)

lemma catalog_length: "length (recommendations ash) = 69"
proof -
  have "length (recommendations ash) = length (map rec_id (recommendations ash))" by simp
  also have "\<dots> = 69" unfolding catalog_ids by simp
  finally show ?thesis .
qed

lemma count_list_replicate:
  "count_list (replicate n x) y = (if x = y then n else 0)"
  by (induction n) auto

text \<open>
  Claim C5. Whatever the decision mapping, the list \<open>recommendations\<close> has exactly 69
  records; counted by their group field as the builder's \<^verbatim>\<open>Counter\<close> does, 20 are in
  R1-R10, 16 in R11-R14, 21 in R15-R20 and 12 in R21-R23 (which add up to 69, so no record
  has another group); and the ids are pairwise distinct.
\<close>

theorem catalog_counts:
  "length (recommendations ash) = 69 \<and>
   count_list (map rec_group (recommendations ash)) ''R1-R10'' = 20 \<and>
   count_list (map rec_group (recommendations ash)) ''R11-R14'' = 16 \<and>
   count_list (map rec_group (recommendations ash)) ''R15-R20'' = 21 \<and>
   count_list (map rec_group (recommendations ash)) ''R21-R23'' = 12 \<and>
   distinct (map rec_id (recommendations ash))"
proof -
  have dist: "distinct (map rec_id (recommendations ash))"
    unfolding catalog_ids by simp
  show ?thesis
    using catalog_length [of ash] dist by (simp add: catalog_groups count_list_replicate)
qed

lemma decimals_mk:
  "Some (decimals (mk_r1_10 ash row lvl)) =
     decimals_rule (rec_group (mk_r1_10 ash row lvl)) (pVTE (mk_r1_10 ash row lvl))"
  "Some (decimals (mk_r11_14 ash row1)) =
     decimals_rule (rec_group (mk_r11_14 ash row1)) (pVTE (mk_r11_14 ash row1))"
  "Some (decimals (mk_r15_20 ash row2)) =
     decimals_rule (rec_group (mk_r15_20 ash row2)) (pVTE (mk_r15_20 ash row2))"
  "Some (decimals (mk_r21_23 ash row1)) =
     decimals_rule (rec_group (mk_r21_23 ash row1)) (pVTE (mk_r21_23 ash row1))"
  by (simp_all add: mk_defs decimals_rule_def Let_def split: prod.splits)

lemma in_catalog_cases:
  assumes "r \<in> set (recommendations ash)"
  obtains row lvl where "r = mk_r1_10 ash row lvl" "row \<in> set r1_10_base" "lvl \<in> {''low'', ''high''}"
  | row where "r = mk_r11_14 ash row" "row \<in> set r11_14_data"
  | row where "r = mk_r15_20 ash row" "row \<in> set r15_20_data"
  | row where "r = mk_r21_23 ash row" "row \<in> set r21_23_data"
  using assms unfolding recommendations_def by auto

text \<open>
  Claim C8. For every built record, \<open>decimals\<close> is the value the family rule of the
  specification gives for the record's group and \<open>pVTE\<close>.
\<close>

theorem decimals_by_family:
  "\<forall>r \<in> set (recommendations ash). Some (decimals r) = decimals_rule (rec_group r) (pVTE r)"
proof
  fix r assume "r \<in> set (recommendations ash)"
  then show "Some (decimals r) = decimals_rule (rec_group r) (pVTE r)"
    by (cases rule: in_catalog_cases) (simp_all only: decimals_mk)
qed

lemma catalog_nth_2:
  "recommendations ash ! 2 = mk_r1_10 ash (''R2'', 0.01, 0.38, 1.65, 0.15, 2.17,
       ''VTE provoked by surgery'', ''Symptomatic VTE'') ''low''"
  by (simp add: recommendations_def r1_10_base_def)

lemma catalog_nth_31:
  "recommendations ash ! 31 = mk_r11_14 ash (''R14a'', 0.0075, 0.5, 2.71, 0.54, 0.004, 2.09,
       ''Family history of FVL (no VTE), minor risk factor'')"
  by (simp add: recommendations_def r1_10_base_def r11_14_data_def nth_append)

lemma catalog_nth_mem: "i < 69 \<Longrightarrow> recommendations ash ! i \<in> set (recommendations ash)"
  using catalog_length [of ash] by simp

text \<open>The rule at record R14a (\<open>pVTE = 0.0075\<close>, family R11-R14, three decimals).\<close>

theorem decimals_by_family_witness:
  "recommendations Map.empty ! 31 \<in> set (recommendations Map.empty) \<and>
   rec_group (recommendations Map.empty ! 31) = ''R11-R14'' \<and>
   pVTE (recommendations Map.empty ! 31) = 0.0075 \<and>
   decimals (recommendations Map.empty ! 31) = 3"
proof -
  have m: "recommendations Map.empty ! 31 \<in> set (recommendations Map.empty)"
    by (rule catalog_nth_mem) simp
  from decimals_by_family [rule_format, OF m] m show ?thesis
    by (simp add: catalog_nth_31 mk_r11_14_def decimals_rule_def Let_def)
qed

text \<open>
  Claim C9, as amended. Every record built in the R1-R10 family whose \<open>pVTE\<close> equals
  \<open>0.01\<close> receives \<open>decimals = 2\<close>; a record of that family receives \<open>decimals = 1\<close>
  exactly when its \<open>pVTE\<close> is at least \<open>0.1\<close>.
\<close>

theorem r1_10_decimals:
  "\<forall>r \<in> set (recommendations ash). rec_group r = ''R1-R10'' \<longrightarrow>
     (pVTE r = 0.01 \<longrightarrow> decimals r = 2) \<and> (decimals r = 1 \<longleftrightarrow> 0.1 \<le> pVTE r)"
proof (intro ballI impI)
  fix r assume "r \<in> set (recommendations ash)" and "rec_group r = ''R1-R10''"
  then show "(pVTE r = 0.01 \<longrightarrow> decimals r = 2) \<and> (decimals r = 1 \<longleftrightarrow> 0.1 \<le> pVTE r)"
    by (cases rule: in_catalog_cases) (auto simp: mk_defs Let_def split: prod.splits)
qed

text \<open>The amended claim at record R2 low, the family's record with \<open>pVTE = 0.01\<close>.\<close>

theorem r1_10_decimals_witness:
  "recommendations Map.empty ! 2 \<in> set (recommendations Map.empty) \<and>
   rec_id (recommendations Map.empty ! 2) = ''R2 low'' \<and>
   rec_group (recommendations Map.empty ! 2) = ''R1-R10'' \<and>
   pVTE (recommendations Map.empty ! 2) = 0.01 \<and>
   decimals (recommendations Map.empty ! 2) = 2"
proof -
  have m: "recommendations Map.empty ! 2 \<in> set (recommendations Map.empty)"
    by (rule catalog_nth_mem) simp
  from r1_10_decimals [rule_format, OF m] m show ?thesis
    by (simp add: catalog_nth_2 mk_r1_10_def Let_def)
qed

text \<open>
  Claim C9 as stated fails at record R2 low: it is in the R1-R10 family, its \<open>pVTE\<close> is
  \<open>0.01\<close>, and its \<open>decimals\<close> is not \<open>1\<close>.
\<close>

theorem r1_10_decimals_counterexample:
  "recommendations Map.empty ! 2 \<in> set (recommendations Map.empty) \<and>
   rec_id (recommendations Map.empty ! 2) = ''R2 low'' \<and>
   rec_group (recommendations Map.empty ! 2) = ''R1-R10'' \<and>
   pVTE (recommendations Map.empty ! 2) = 0.01 \<and>
   decimals (recommendations Map.empty ! 2) \<noteq> 1"
proof -
  have m: "recommendations Map.empty ! 2 \<in> set (recommendations Map.empty)"
    by (rule catalog_nth_mem) simp
  then show ?thesis
    by (simp add: catalog_nth_2 mk_r1_10_def Let_def)
qed

section \<open>Properties of the comparison\<close>

lemma excel_matches_set:
  "set (excel_matches excel_data jid) =
     {x \<in> {jid, jid @ '' low'', jid @ '' high''}. x \<in> dom excel_data}"
  by (auto simp: excel_matches_def)

lemma compare_set:
  "set (compare_recommendations excel_data js_data) =
     {compare_one excel_data jid js_r xid | jid js_r xid.
        (jid, js_r) \<in> set js_data \<and> xid \<in> set (excel_matches excel_data jid)}"
  by (fastforce simp: compare_recommendations_def)

lemma compare_one_sel:
  "js_id (compare_one excel_data jid js_r xid) = jid"
  "excel_id (compare_one excel_data jid js_r xid) = xid"
  "js_ash (compare_one excel_data jid js_r xid) = js_rec.ash_decision js_r"
  by (simp_all add: compare_one_def Let_def)

text \<open>
  Claim C6, as amended. \<open>compare_recommendations\<close> expands in the other direction: for a
  catalog record with id \<open>j\<close> it produces a comparison result for each of the reference ids
  \<open>j\<close>, \<open>j low\<close> and \<open>j high\<close> that the reference mapping contains, so a bare catalog id is
  paired with both suffixed reference rows; and every result for \<open>j\<close> pairs it with one of
  these three ids, present in the reference. A catalog record none of whose three ids is in
  the reference gets no result; a record \<open>R1 low\<close> against a reference that has only the
  bare \<open>R1\<close> is such a record.
\<close>

theorem compare_expands_bare_catalog_id:
  assumes "(jid, js_r) \<in> set js_data"
  shows "(\<forall>xid \<in> {jid, jid @ '' low'', jid @ '' high''}. xid \<in> dom excel_data \<longrightarrow>
            (\<exists>res \<in> set (compare_recommendations excel_data js_data).
               js_id res = jid \<and> excel_id res = xid))
       \<and> (\<forall>res \<in> set (compare_recommendations excel_data js_data). js_id res = jid \<longrightarrow>
            excel_id res \<in> {jid, jid @ '' low'', jid @ '' high''} \<and> excel_id res \<in> dom excel_data)"
proof (intro conjI ballI impI)
  fix xid assume "xid \<in> {jid, jid @ '' low'', jid @ '' high''}" and "xid \<in> dom excel_data"
  then have "xid \<in> set (excel_matches excel_data jid)" by (simp add: excel_matches_set)
  with assms have "compare_one excel_data jid js_r xid \<in> set (compare_recommendations excel_data js_data)"
    unfolding compare_set by blast
  then show "\<exists>res \<in> set (compare_recommendations excel_data js_data). js_id res = jid \<and> excel_id res = xid"
    using compare_one_sel(1,2) by blast
next
  fix res assume "res \<in> set (compare_recommendations excel_data js_data)" and j: "js_id res = jid"
  then obtain jid' js_r' xid where r: "res = compare_one excel_data jid' js_r' xid"
    and x: "xid \<in> set (excel_matches excel_data jid')"
    unfolding compare_set by blast
  from r j have "jid' = jid" by (simp add: compare_one_sel)
  with x r show "excel_id res \<in> {jid, jid @ '' low'', jid @ '' high''}" and "excel_id res \<in> dom excel_data"
    by (simp_all add: compare_one_sel excel_matches_set)
qed

text \<open>
  The amended claim at a catalog with the bare record \<open>R1\<close> and a reference with the rows
  \<open>R1 low\<close> and \<open>R1 high\<close>: both pairs are in the results.
\<close>

theorem compare_expands_bare_catalog_id_witness:
  "(''R1'', \<lparr>js_rec.ash_decision = ''Rx'', pvte = 0.1\<rparr>)
     \<in> set [(''R1'', \<lparr>js_rec.ash_decision = ''Rx'', pvte = 0.1\<rparr>)]
   \<and> (\<exists>res \<in> set (compare_recommendations
          [''R1 low'' \<mapsto> \<lparr>excel_rec.ash_decision = ''Rx'', eut_decision = ''Rx'', agrees_eut = None, pvte = Some 0.1\<rparr>,
           ''R1 high'' \<mapsto> \<lparr>excel_rec.ash_decision = ''Test'', eut_decision = ''Rx'', agrees_eut = None, pvte = Some 0.1\<rparr>]
          [(''R1'', \<lparr>js_rec.ash_decision = ''Rx'', pvte = 0.1\<rparr>)]).
        js_id res = ''R1'' \<and> excel_id res = ''R1 low'')
   \<and> (\<exists>res \<in> set (compare_recommendations
          [''R1 low'' \<mapsto> \<lparr>excel_rec.ash_decision = ''Rx'', eut_decision = ''Rx'', agrees_eut = None, pvte = Some 0.1\<rparr>,
           ''R1 high'' \<mapsto> \<lparr>excel_rec.ash_decision = ''Test'', eut_decision = ''Rx'', agrees_eut = None, pvte = Some 0.1\<rparr>]
          [(''R1'', \<lparr>js_rec.ash_decision = ''Rx'', pvte = 0.1\<rparr>)]).
        js_id res = ''R1'' \<and> excel_id res = ''R1 high'')"
  using compare_expands_bare_catalog_id
    [of "''R1''" "\<lparr>js_rec.ash_decision = ''Rx'', pvte = 0.1\<rparr>"
        "[(''R1'', \<lparr>js_rec.ash_decision = ''Rx'', pvte = 0.1\<rparr>)]"
        "[''R1 low'' \<mapsto> \<lparr>excel_rec.ash_decision = ''Rx'', eut_decision = ''Rx'', agrees_eut = None, pvte = Some 0.1\<rparr>,
          ''R1 high'' \<mapsto> \<lparr>excel_rec.ash_decision = ''Test'', eut_decision = ''Rx'', agrees_eut = None, pvte = Some 0.1\<rparr>]"]
  by simp

text \<open>
  Claim C6 as stated fails at the catalog records \<open>R1 low\<close> and \<open>R1 high\<close> against a
  reference mapping that contains only the bare id \<open>R1\<close>: there is no comparison result at
  all, both records are skipped.
\<close>

theorem compare_suffixed_catalog_id_counterexample:
  "''R1'' \<in> dom [''R1'' \<mapsto> \<lparr>excel_rec.ash_decision = ''Rx'', eut_decision = ''Rx'', agrees_eut = None, pvte = Some 0.1\<rparr>]
   \<and> compare_recommendations
        [''R1'' \<mapsto> \<lparr>excel_rec.ash_decision = ''Rx'', eut_decision = ''Rx'', agrees_eut = None, pvte = Some 0.1\<rparr>]
        [(''R1 low'', \<lparr>js_rec.ash_decision = ''Rx'', pvte = 0.1\<rparr>),
         (''R1 high'', \<lparr>js_rec.ash_decision = ''Rx'', pvte = 0.1\<rparr>)] = []"
  by (simp add: compare_recommendations_def excel_matches_def)

section \<open>Properties of the end of the builder script\<close>



section \<open>Unresolved decisions\<close>











section \<open>The round trip through data.js\<close>

subsection \<open>Literal search\<close>

lemma startswith_append [simp]: "startswith (p @ r) p"
  by (simp add: startswith_def)

lemma startswith_hd:
  assumes "startswith (c # s) pat" and "pat \<noteq> []"
  shows "c = hd pat"
  using assms by (cases pat) (auto simp: startswith_def)

lemma startswith_last:
  assumes "startswith s pat" and "pat \<noteq> []"
  shows "length pat \<le> length s" and "s ! (length pat - 1) = last pat"
proof -
  from assms have t: "take (length pat) s = pat" by (simp add: startswith_def)
  then have "length pat = min (length s) (length pat)" by (metis length_take)
  then show le: "length pat \<le> length s" by simp
  from assms(2) have "last pat = pat ! (length pat - 1)" by (simp add: last_conv_nth)
  also have "\<dots> = take (length pat) s ! (length pat - 1)" by (simp add: t)
  also have "\<dots> = s ! (length pat - 1)" using assms(2) by simp
  finally show "s ! (length pat - 1) = last pat" by simp
qed

lemma find_first_hd:
  assumes "pat \<noteq> []" and "hd pat \<notin> set pre"
  shows "find_first pat (pre @ pat @ rest) = Some (pre, rest)"
  using assms(2)
proof (induction pre)
  case Nil
  from assms(1) obtain p ps where "pat = p # ps" by (cases pat) auto
  then show ?case by (simp add: startswith_def)
next
  case (Cons c pre)
  then have "c \<noteq> hd pat" by auto
  then have "\<not> startswith (c # pre @ pat @ rest) pat"
    using startswith_hd [OF _ assms(1)] by blast
  with Cons show ?case by simp
qed

lemma find_first_last:
  assumes "pat \<noteq> []" and "last pat \<notin> set pre" and "last pat \<notin> set (butlast pat)"
  shows "find_first pat (pre @ pat @ rest) = Some (pre, rest)"
  using assms(2)
proof (induction pre)
  case Nil
  from assms(1) obtain p ps where "pat = p # ps" by (cases pat) auto
  then show ?case by (simp add: startswith_def)
next
  case (Cons c pre)
  have "\<not> startswith (c # pre @ pat @ rest) pat"
  proof
    assume s: "startswith (c # pre @ pat @ rest) pat"
    let ?front = "c # pre @ butlast pat"
    have split: "c # pre @ pat @ rest = ?front @ last pat # rest"
      using assms(1) by (simp add: append_butlast_last_id [symmetric] del: append_butlast_last_id)
    have lt: "length pat - 1 < length ?front" using assms(1) by simp
    from startswith_last(2) [OF s assms(1)] have "(?front @ last pat # rest) ! (length pat - 1) = last pat"
      by (simp only: split)
    with lt have "?front ! (length pat - 1) = last pat" by (simp only: nth_append if_True)
    with lt have "last pat \<in> set ?front" by (metis nth_mem)
    with Cons.prems assms(3) show False by auto
  qed
  with Cons show ?case by simp
qed

lemma find_first_after_header:
  assumes "pat = q @ [l]" and "drop (length h - length q) h = q" and "l \<notin> set h"
  shows "find_first pat (h @ l # rest) = Some (take (length h - length q) h, rest)"
proof -
  let ?h0 = "take (length h - length q) h"
  have h: "h = ?h0 @ q" using assms(2) by (metis append_take_drop_id)
  have "set ?h0 \<subseteq> set h" by (rule set_take_subset)
  moreover have "set q \<subseteq> set h" using assms(2) by (metis set_drop_subset)
  ultimately have a: "last pat \<notin> set ?h0" and b: "last pat \<notin> set (butlast pat)"
    using assms(1,3) by auto
  have e: "h @ l # rest = ?h0 @ pat @ rest"
  proof -
    have "h @ l # rest = (?h0 @ q) @ l # rest" using h by simp
    also have "\<dots> = ?h0 @ pat @ rest" by (simp add: assms(1))
    finally show ?thesis .
  qed
  have "pat \<noteq> []" using assms(1) by simp
  from find_first_last [OF this a b, of rest] show ?thesis by (simp only: e)
qed

subsection \<open>The record pattern on text without an unquoted key\<close>

lemma rec_pattern_other_char:
  assumes "c \<noteq> CHR ''{''"
  shows "rec_pattern (c # s) = None"
  using assms by (simp add: rec_pattern_def)

lemma not_space_quote: "\<not> is_space (CHR 0x22)"
  by (simp add: is_space_def)

lemma rec_pattern_quoted_key:
  assumes "\<forall>w \<in> set ws. is_space w"
  shows "rec_pattern (CHR ''{'' # ws @ CHR 0x22 # t) = None"
proof -
  have "dropWhile is_space (ws @ CHR 0x22 # t) = CHR 0x22 # t"
    using assms not_space_quote by (simp add: dropWhile_append3)
  then show ?thesis
    by (simp add: rec_pattern_def startswith_def)
qed

lemma finditer_no_brace:
  assumes "CHR ''{'' \<notin> set xs"
  shows "finditer 0 (xs @ ys) = finditer 0 ys"
  using assms
proof (induction xs)
  case Nil
  then show ?case by simp
next
  case (Cons c xs)
  then have "c \<noteq> CHR ''{''" by auto
  then have "rec_pattern (c # xs @ ys) = None" by (rule rec_pattern_other_char)
  with Cons show ?case by simp
qed

lemma space_not_brace:
  assumes "\<forall>w \<in> set ws. is_space w"
  shows "CHR ''{'' \<notin> set ws"
proof
  assume "CHR ''{'' \<in> set ws"
  with assms have "is_space CHR ''{''" by blast
  then show False by (simp add: is_space_def)
qed

lemma finditer_quoted_object:
  assumes "\<forall>w \<in> set ws. is_space w" and "CHR ''{'' \<notin> set t"
  shows "finditer 0 (CHR ''{'' # ws @ CHR 0x22 # t @ ys) = finditer 0 ys"
proof -
  have "finditer 0 (CHR ''{'' # ws @ CHR 0x22 # t @ ys) = finditer 0 (ws @ CHR 0x22 # t @ ys)"
    using rec_pattern_quoted_key [OF assms(1), of "t @ ys"] by simp
  also have "\<dots> = finditer 0 ((ws @ CHR 0x22 # t) @ ys)" by simp
  also have "\<dots> = finditer 0 ys"
    using space_not_brace [OF assms(1)] assms(2) by (intro finditer_no_brace) simp
  finally show ?thesis .
qed

subsection \<open>The characters of the serialized values\<close>

lemma plain_simps [simp]:
  "plain []"
  "plain (c # s) \<longleftrightarrow> c \<noteq> CHR ''{'' \<and> c \<noteq> CHR '']'' \<and> plain s"
  "plain (a @ b) \<longleftrightarrow> plain a \<and> plain b"
  by (auto simp: plain_def)

lemma plain_digit_char:
  assumes "n < 10"
  shows "plain [digit_char n]"
proof -
  have "digit_char n \<in> set ''0123456789''"
    unfolding digit_char_def using assms by (intro nth_mem) simp
  then show ?thesis by auto
qed

lemma plain_hex_digit:
  assumes "n < 16"
  shows "plain [hex_digit n]"
proof -
  have "hex_digit n \<in> set ''0123456789abcdef''"
    unfolding hex_digit_def using assms by (intro nth_mem) simp
  then show ?thesis by auto
qed

lemma plain_nat_str [simp]: "plain (nat_str n)"
proof (induction n rule: nat_str.induct)
  case (1 n)
  show ?case
  proof (cases "n < 10")
    case True
    then have "nat_str n = [digit_char n]" by (subst nat_str.simps) simp
    with plain_digit_char [OF True] show ?thesis by simp
  next
    case False
    then have e: "nat_str n = nat_str (n div 10) @ [digit_char (n mod 10)]"
      by (subst nat_str.simps) simp
    have "n mod 10 < 10" by simp
    from plain_digit_char [OF this] "1.IH" [OF False] show ?thesis
      by (simp only: e plain_simps(3))
  qed
qed

lemma plain_frac_digits:
  assumes "0 \<le> x" and "x < 1"
  shows "plain (frac_digits n x)"
  using assms
proof (induction n arbitrary: x)
  case 0
  then show ?case by simp
next
  case (Suc n)
  define d where "d = nat \<lfloor>x * 10\<rfloor>"
  have f0: "0 \<le> \<lfloor>x * 10\<rfloor>" using Suc.prems by simp
  have "x * 10 < 10" using Suc.prems by simp
  then have f1: "\<lfloor>x * 10\<rfloor> < 10" by (simp add: floor_less_iff)
  have d: "d < 10" unfolding d_def using f0 f1 by linarith
  have r: "real d = of_int \<lfloor>x * 10\<rfloor>" using f0 by (simp add: d_def)
  have "0 \<le> x * 10 - real d" and "x * 10 - real d < 1"
    unfolding r by linarith+
  from Suc.IH [OF this] have t: "plain (frac_digits n (x * 10 - real d))" .
  have h: "plain [digit_char d]" by (rule plain_digit_char [OF d])
  show ?case
  proof (cases "x = 0")
    case True
    then show ?thesis by simp
  next
    case False
    then have "frac_digits (Suc n) x = [digit_char d] @ frac_digits n (x * 10 - real d)"
      by (simp add: Let_def d_def)
    with t h show ?thesis by (simp only: plain_simps(3))
  qed
qed

lemma plain_int_str [simp]: "plain (int_str i)"
  by (simp add: int_str_def)

lemma plain_float_repr [simp]: "plain (float_repr x)"
proof -
  let ?a = "\<bar>x\<bar>"
  have "0 \<le> ?a - of_int \<lfloor>?a\<rfloor>" and "?a - of_int \<lfloor>?a\<rfloor> < 1" by linarith+
  from plain_frac_digits [OF this, of 17]
  show ?thesis by (simp add: float_repr_def Let_def)
qed

lemma plain_json_escape_char:
  assumes "c \<noteq> CHR ''{''" and "c \<noteq> CHR '']''"
  shows "plain (json_escape_char c)"
proof -
  have "n div 16 < 16" if "n < 256" for n :: nat
    using that by arith
  from this [OF nat_of_char_less_256 [of c]]
  have "of_char c div 16 < (16::nat)" "of_char c mod 16 < (16::nat)"
    by simp_all
  from plain_hex_digit [OF this(1)] plain_hex_digit [OF this(2)]
  have "plain [CHR 0x5C, CHR ''u'', CHR ''0'', CHR ''0'',
            hex_digit ((of_char c :: nat) div 16), hex_digit ((of_char c :: nat) mod 16)]"
    by simp
  with assms show ?thesis unfolding json_escape_char_def by simp
qed

lemma plain_json_string:
  assumes "plain s"
  shows "plain (json_string s)"
proof -
  have "plain (concat (map json_escape_char s))"
    using assms by (induction s) (simp_all add: plain_json_escape_char)
  then show ?thesis by (simp add: json_string_def)
qed

subsection \<open>The shape of the serialized list\<close>

lemma newline_indent_space: "\<forall>w \<in> set (newline_indent indent level). is_space w"
  by (simp add: newline_indent_def nl_def is_space_def)

lemma plain_newline_indent [simp]: "plain (newline_indent indent level)"
  by (simp add: newline_indent_def nl_def plain_def)

lemma join_Cons: "join sep (x # xs) = x @ concat (map (\<lambda>y. sep @ y) xs)"
  by (induction xs arbitrary: x) simp_all

lemma plain_concat:
  assumes "\<forall>y \<in> set ys. plain (f y)"
  shows "plain (concat (map f ys))"
  using assms by (induction ys) simp_all

lemma plain_json_member:
  assumes "plain (fst kv)" and "case snd kv of JStr s \<Rightarrow> plain s | _ \<Rightarrow> True"
  shows "plain (json_member kv)"
  using assms by (cases "snd kv") (simp_all add: json_member_def plain_json_string)

lemma plain_json_members:
  assumes "plain_rec r"
  shows "\<forall>kv \<in> set (json_members r). plain (json_member kv)"
proof
  fix kv assume "kv \<in> set (json_members r)"
  with assms have "plain (fst kv) \<and> (case snd kv of JStr s \<Rightarrow> plain s | _ \<Rightarrow> True)"
    by (auto simp: json_members_def plain_rec_def split: option.splits py_num.splits)
  then show "plain (json_member kv)" by (simp add: plain_json_member)
qed

lemma json_members_first:
  "\<exists>ms. json_members r = (''id'', JStr (rec_id r)) # ms"
  by (simp add: json_members_def)

lemma json_object_shape:
  assumes "plain_rec r"
  shows "\<exists>t. json_object indent level (json_members r) =
               CHR ''{'' # newline_indent indent (Suc level) @ CHR 0x22 # t \<and> plain t"
proof -
  from json_members_first obtain ms where ms: "json_members r = (''id'', JStr (rec_id r)) # ms"
    by blast
  let ?sep = "'','' @ newline_indent indent (Suc level)"
  let ?first = "concat (map json_escape_char ''id'') @ [CHR 0x22] @ '': '' @ json_value (JStr (rec_id r))"
  let ?t = "?first @ concat (map (\<lambda>y. ?sep @ y) (map json_member ms))
            @ newline_indent indent level @ ''}''"
  have all: "\<forall>kv \<in> set (json_members r). plain (json_member kv)"
    by (rule plain_json_members [OF assms])
  have m1: "json_member (''id'', JStr (rec_id r)) = CHR 0x22 # ?first"
    by (simp add: json_member_def json_string_def)
  from all ms have "plain (json_member (''id'', JStr (rec_id r)))" by simp
  then have p1: "plain ?first" by (simp add: m1)
  from all ms have "\<forall>y \<in> set (map json_member ms). plain (?sep @ y)" by simp
  then have p2: "plain (concat (map (\<lambda>y. ?sep @ y) (map json_member ms)))"
    by (rule plain_concat)
  have p3: "plain (newline_indent indent level @ ''}'')" by simp
  have "json_object indent level (json_members r) =
          CHR ''{'' # newline_indent indent (Suc level) @ CHR 0x22 # ?t"
    by (simp add: json_object_def ms join_Cons m1 del: json_value.simps)
  moreover have "plain ?t" using p1 p2 p3 by (simp only: plain_simps(3) simp_thms)
  ultimately show ?thesis by blast
qed

lemma finditer_json_object:
  assumes "plain_rec r"
  shows "finditer 0 (json_object indent level (json_members r) @ ys) = finditer 0 ys"
proof -
  from json_object_shape [OF assms, of indent level] obtain t
    where o: "json_object indent level (json_members r) =
                CHR ''{'' # newline_indent indent (Suc level) @ CHR 0x22 # t"
      and t: "plain t" by blast
  from t have "CHR ''{'' \<notin> set t" by (simp add: plain_def)
  from finditer_quoted_object [OF newline_indent_space this, of indent "Suc level" ys]
  show ?thesis by (simp add: o)
qed

lemma plain_json_object:
  assumes "plain_rec r"
  shows "CHR '']'' \<notin> set (json_object indent level (json_members r))"
proof -
  from json_object_shape [OF assms, of indent level] obtain t
    where o: "json_object indent level (json_members r) =
                CHR ''{'' # newline_indent indent (Suc level) @ CHR 0x22 # t"
      and t: "plain t" by blast
  have "CHR '']'' \<notin> set (newline_indent indent (Suc level))"
    using plain_newline_indent [of indent "Suc level"] by (simp add: plain_def)
  with t show ?thesis by (simp add: o plain_def)
qed

lemma json_dumps_body:
  assumes "recs \<noteq> []"
  shows "json_dumps indent recs = CHR ''['' # array_body indent recs @ '']''"
  using assms by (simp add: json_dumps_def array_body_def)

lemma finditer_separated_objects:
  assumes "\<forall>r \<in> set rs. plain_rec r" and "CHR ''{'' \<notin> set sep"
  shows "finditer 0 (concat (map (\<lambda>y. sep @ y) (map (\<lambda>r. json_object indent level (json_members r)) rs)) @ ys)
           = finditer 0 ys"
  using assms(1)
proof (induction rs)
  case Nil
  then show ?case by simp
next
  case (Cons r rs)
  let ?obj = "json_object indent level (json_members r)"
  let ?rest = "concat (map (\<lambda>y. sep @ y) (map (\<lambda>r. json_object indent level (json_members r)) rs))"
  have "finditer 0 (sep @ ?obj @ ?rest @ ys) = finditer 0 (?obj @ ?rest @ ys)"
    by (rule finditer_no_brace [OF assms(2)])
  also have "\<dots> = finditer 0 (?rest @ ys)"
    using Cons.prems by (simp add: finditer_json_object)
  also have "\<dots> = finditer 0 ys" using Cons by simp
  finally show ?case by simp
qed

lemma finditer_array_body:
  assumes "\<forall>r \<in> set recs. plain_rec r"
  shows "finditer 0 (array_body indent recs) = []"
proof (cases recs)
  case Nil
  have "finditer 0 ((newline_indent indent 1 @ newline_indent indent 0) @ []) = finditer 0 []"
    by (rule finditer_no_brace) (simp add: newline_indent_def nl_def)
  with Nil show ?thesis by (simp add: array_body_def)
next
  case (Cons r rs)
  let ?sep = "'','' @ newline_indent indent 1"
  let ?objs = "concat (map (\<lambda>y. ?sep @ y) (map (\<lambda>r. json_object indent 1 (json_members r)) rs))"
  have b: "CHR ''{'' \<notin> set ?sep" by (simp add: newline_indent_def nl_def)
  have n: "CHR ''{'' \<notin> set (newline_indent indent k)" for k
    by (simp add: newline_indent_def nl_def)
  have "array_body indent recs =
          newline_indent indent 1 @ json_object indent 1 (json_members r) @ ?objs
          @ newline_indent indent 0 @ []"
    by (simp add: array_body_def Cons join_Cons)
  also have "finditer 0 \<dots> = finditer 0 (json_object indent 1 (json_members r) @ ?objs
          @ newline_indent indent 0 @ [])"
    by (rule finditer_no_brace [OF n])
  also have "\<dots> = finditer 0 (?objs @ newline_indent indent 0 @ [])"
    using assms Cons by (simp add: finditer_json_object)
  also have "\<dots> = finditer 0 (newline_indent indent 0 @ [])"
    using assms Cons by (intro finditer_separated_objects [OF _ b]) simp
  also have "\<dots> = finditer 0 []" by (rule finditer_no_brace [OF n])
  finally show ?thesis by simp
qed

lemma array_body_no_bracket:
  assumes "\<forall>r \<in> set recs. plain_rec r"
  shows "CHR '']'' \<notin> set (array_body indent recs)"
proof -
  have n: "CHR '']'' \<notin> set (newline_indent indent k)" for k
    by (simp add: newline_indent_def nl_def)
  have "CHR '']'' \<notin> set (join sep (map (\<lambda>r. json_object indent 1 (json_members r)) rs))"
    if "\<forall>r \<in> set rs. plain_rec r" and "CHR '']'' \<notin> set sep" for rs sep
  proof (cases rs)
    case Nil
    then show ?thesis by simp
  next
    case (Cons r rs')
    with that show ?thesis by (auto simp: join_Cons plain_json_object)
  qed
  from this [OF assms, of "'','' @ newline_indent indent 1"] n show ?thesis
    by (simp add: array_body_def)
qed

subsection \<open>Loading what the builder wrote\<close>

lemma js_header_end:
  "drop (length js_header - length ''const RECOMMENDATIONS = '') js_header = ''const RECOMMENDATIONS = ''"
  by (simp add: js_header_def nl_def)

lemma js_header_no_bracket: "CHR ''['' \<notin> set js_header"
  by (simp add: js_header_def nl_def)

lemma js_footer_start: "js_footer = CHR '';'' # tl js_footer"
  by (simp add: js_footer_def nl_def)

lemma search_array_js_content:
  assumes "recs \<noteq> []" and "\<forall>r \<in> set recs. plain_rec r"
  shows "search_array (js_content recs) = Some (array_body 4 recs)"
proof -
  let ?body = "array_body 4 recs"
  let ?rest = "?body @ '']'' @ js_footer"
  have c: "js_content recs = js_header @ CHR ''['' # ?rest"
    by (simp add: js_content_def json_dumps_body [OF assms(1)])
  have "''const RECOMMENDATIONS = ['' = ''const RECOMMENDATIONS = '' @ [CHR ''['']" by simp
  from find_first_after_header [OF this js_header_end js_header_no_bracket, of ?rest]
  have 1: "find_first ''const RECOMMENDATIONS = ['' (js_content recs) =
             Some (take (length js_header - length ''const RECOMMENDATIONS = '') js_header, ?rest)"
    by (simp only: c)
  have "?rest = ?body @ ''];'' @ tl js_footer"
    by (subst js_footer_start) simp
  moreover have "find_first ''];'' (?body @ ''];'' @ tl js_footer) = Some (?body, tl js_footer)"
    using array_body_no_bracket [OF assms(2), of 4] by (intro find_first_hd) simp_all
  ultimately have 2: "find_first ''];'' ?rest = Some (?body, tl js_footer)" by simp
  show ?thesis unfolding search_array_def by (simp only: 1 2 option.case prod.case)
qed

lemma load_js_data_js_content:
  assumes "recs \<noteq> []" and "\<forall>r \<in> set recs. plain_rec r"
  shows "load_js_data (js_content recs) = Inr []"
  by (simp add: load_js_data_def search_array_js_content [OF assms] finditer_array_body [OF assms(2)])

subsection \<open>The strings of the catalog\<close>

lemma ash_decisions_step_values:
  assumes "\<forall>k v. d k = Some v \<longrightarrow> v \<in> {''NoRx'', ''Test'', ''Rx''}"
  shows "\<forall>k v. ash_decisions_step row d k = Some v \<longrightarrow> v \<in> {''NoRx'', ''Test'', ''Rx''}"
  using assms by (auto simp: ash_decisions_step_def Let_def split: if_splits)

lemma fold_ash_decisions_values:
  assumes "\<forall>k v. d k = Some v \<longrightarrow> v \<in> {''NoRx'', ''Test'', ''Rx''}"
  shows "\<forall>k v. fold ash_decisions_step rows d k = Some v \<longrightarrow> v \<in> {''NoRx'', ''Test'', ''Rx''}"
  using assms
proof (induction rows arbitrary: d)
  case Nil
  then show ?case by simp
next
  case (Cons row rows)
  from Cons.IH [OF ash_decisions_step_values [OF Cons.prems]] show ?case by simp
qed

lemma plain_ash_get: "plain (ash_get (load_ash_decisions rows) k)"
proof (cases "load_ash_decisions rows k")
  case None
  then show ?thesis by (simp add: ash_get_def)
next
  case (Some v)
  with fold_ash_decisions_values [of Map.empty rows]
  have "v \<in> {''NoRx'', ''Test'', ''Rx''}" by (simp add: load_ash_decisions_def)
  with Some show ?thesis by (auto simp: ash_get_def)
qed

lemma plain_r1_10_base:
  "\<forall>row \<in> set r1_10_base. case row of (base_id, p, tp, rrt, rrrx, rrbleed, desc, cat) \<Rightarrow>
      plain base_id \<and> plain desc \<and> plain cat"
  by (simp add: r1_10_base_def)

lemma plain_r11_14_data:
  "\<forall>row \<in> set r11_14_data. case row of (rid, p, tp, rrt, rrrx, h, rrbleed, desc) \<Rightarrow>
      plain rid \<and> plain desc"
  by (simp add: r11_14_data_def)

lemma plain_r15_20_data:
  "\<forall>row \<in> set r15_20_data. case row of (rid, p, tp, rrt, rrrx, h, desc) \<Rightarrow>
      plain rid \<and> plain desc"
  by (simp add: r15_20_data_def)

lemma plain_r21_23_data:
  "\<forall>row \<in> set r21_23_data. case row of (rid, p, tp, rrt, rrrx, h, rrbleed, desc) \<Rightarrow>
      plain rid \<and> plain desc"
  by (simp add: r21_23_data_def)

lemma upper_levels: "upper ''low'' = ''LOW''" "upper ''high'' = ''HIGH''"
  by (simp_all add: upper_def upper_char_def)

lemma plain_catalog:
  assumes "r \<in> set (recommendations (load_ash_decisions rows))"
  shows "plain_rec r"
  using assms
proof (cases rule: in_catalog_cases)
  case (1 row lvl)
  with plain_r1_10_base show ?thesis
    by (cases row) (auto simp: mk_r1_10_def plain_rec_def Let_def plain_ash_get upper_levels)
next
  case (2 row)
  with plain_r11_14_data show ?thesis
    by (cases row) (auto simp: mk_r11_14_def plain_rec_def plain_ash_get)
next
  case (3 row)
  with plain_r15_20_data show ?thesis
    by (cases row) (auto simp: mk_r15_20_def plain_rec_def plain_ash_get)
next
  case (4 row)
  with plain_r21_23_data show ?thesis
    by (cases row) (auto simp: mk_r21_23_def plain_rec_def plain_ash_get)
qed

lemma catalog_not_empty: "recommendations ash \<noteq> []"
  by (simp add: recommendations_def r1_10_base_def)

text \<open>
  Claim C1 fails on the code. Whatever the Agreement sheet, the catalog built in memory has
  69 records, and \<open>load_js_data\<close> applied to the \<^verbatim>\<open>data.js\<close> text written for it
  returns the empty dictionary: the record pattern asks for the unquoted key \<^verbatim>\<open>id:\<close>
  after the opening brace, and the serializer writes the key in double quotes. No record
  comes back from the round trip.
\<close>

theorem load_js_data_loses_catalog:
  "length (recommendations (load_ash_decisions agreement_rows)) = 69 \<and>
   load_js_data (js_content (recommendations (load_ash_decisions agreement_rows))) = Inr []"
proof
  show "length (recommendations (load_ash_decisions agreement_rows)) = 69"
    by (rule catalog_length)
  show "load_js_data (js_content (recommendations (load_ash_decisions agreement_rows))) = Inr []"
    by (rule load_js_data_js_content [OF catalog_not_empty]) (simp add: plain_catalog)
qed

end
